theory Spec2Isabelle
  imports Complex_Main "HOL-Library.Word"
begin

section \<open>JavaScript values used by server.js\<close>

text \<open>
  A JavaScript string is a sequence of UTF-16 code units. Version strings reach the
  server from a query parameter, a request header, a multipart field and the parsed
  version file, so they are arbitrary such sequences.
\<close>

type_synonym jschar = "16 word"
type_synonym jsstring = "jschar list"

text \<open>The code units of an ASCII literal of the source, such as \<open>'.'\<close> or \<open>"1.0.0"\<close>.\<close>

definition ascii :: "string \<Rightarrow> jsstring" where
  "ascii s = map (\<lambda>c. word_of_nat (of_char c)) s"

text \<open>
  A JavaScript Number is an IEEE 754 double. The finite values are kept as the exact
  rational they denote (\<open>Fin 0\<close> is \<open>+0\<close>); the negative zero, the two infinities and
  NaN are constructors of their own.
\<close>

datatype jsnum = NaN | PosInf | NegInf | NegZero | Fin rat

text \<open>
  The values a handler can meet: \<open>undefined\<close>, and what \<open>JSON.parse\<close> and the query
  parser return. The keys of an object are the property names of the source.
\<close>

datatype jsval =
    Undefined
  | Null
  | Bool bool
  | Num jsnum
  | Str jsstring
  | Arr "jsval list"
  | Obj "(string \<times> jsval) list"

datatype js_error = TypeError

text \<open>ToBoolean: what \<open>!v\<close> and \<open>a || b\<close> test.\<close>

fun truthy_num :: "jsnum \<Rightarrow> bool" where
  "truthy_num NaN = False"
| "truthy_num NegZero = False"
| "truthy_num (Fin q) = (q \<noteq> 0)"
| "truthy_num PosInf = True"
| "truthy_num NegInf = True"

fun truthy :: "jsval \<Rightarrow> bool" where
  "truthy Undefined = False"
| "truthy Null = False"
| "truthy (Bool b) = b"
| "truthy (Num n) = truthy_num n"
| "truthy (Str s) = (s \<noteq> [])"
| "truthy (Arr xs) = True"
| "truthy (Obj kvs) = True"

text \<open>\<open>a || b\<close>: the left operand when it is truthy, the right operand otherwise.\<close>

definition js_or :: "jsval \<Rightarrow> jsval \<Rightarrow> jsval" where
  "js_or a b = (if truthy a then a else b)"

text \<open>
  The relational operators on Numbers: every comparison with NaN is false, the two
  zeros are equal, the infinities are the ends of the order.
\<close>

fun fin_val :: "jsnum \<Rightarrow> rat" where
  "fin_val (Fin q) = q"
| "fin_val _ = 0"

fun js_less :: "jsnum \<Rightarrow> jsnum \<Rightarrow> bool" where
  "js_less NaN y = False"
| "js_less x NaN = False"
| "js_less PosInf y = False"
| "js_less x NegInf = False"
| "js_less NegInf y = True"
| "js_less x PosInf = True"
| "js_less x y = (fin_val x < fin_val y)"

definition js_greater :: "jsnum \<Rightarrow> jsnum \<Rightarrow> bool" where
  "js_greater x y = js_less y x"

section \<open>Rounding a rational to a double\<close>

text \<open>
  The Number value for a non-negative rational, as V8 computes it for a literal of any
  length: round to the nearest double, ties to the even significand, and to infinity
  from \<open>2^1024\<close> on. \<open>binade q\<close> is the exponent
  \<open>k\<close> with \<open>2^k \<le> q < 2^(k+1)\<close>; the doubles of that binade are the multiples of
  \<open>2^(k-52)\<close>, and below \<open>2^(-1022)\<close> (the subnormals) the multiples of \<open>2^(-1074)\<close>.
\<close>

function bit_length :: "nat \<Rightarrow> nat" where
  "bit_length n = (if n = 0 then 0 else Suc (bit_length (n div 2)))"
  by pat_completeness auto
termination
  by (relation "measure (\<lambda>n. n)") auto

declare bit_length.simps [simp del]

definition pow2 :: "int \<Rightarrow> rat" where
  "pow2 k = (if 0 \<le> k then 2 ^ nat k else 1 / 2 ^ nat (- k))"

definition pow10 :: "int \<Rightarrow> rat" where
  "pow10 k = (if 0 \<le> k then 10 ^ nat k else 1 / 10 ^ nat (- k))"

definition binade :: "rat \<Rightarrow> int" where
  "binade q =
     (let a = fst (quotient_of q); b = snd (quotient_of q);
          k0 = int (bit_length (nat a)) - int (bit_length (nat b))
      in if pow2 k0 \<le> q then k0 else k0 - 1)"

definition round_half_even :: "rat \<Rightarrow> int" where
  "round_half_even q =
     (let f = \<lfloor>q\<rfloor>; r = q - of_int f
      in if r < 1 / 2 then f
         else if 1 / 2 < r then f + 1
         else if even f then f else f + 1)"

definition to_double :: "rat \<Rightarrow> jsnum" where
  "to_double q =
     (if q \<le> 0 then Fin 0
      else
        let k = max (binade q) (- 1022);
            u = pow2 (k - 52);
            r = of_int (round_half_even (q / u)) * u
        in if pow2 1024 \<le> r then PosInf else Fin r)"

fun js_neg :: "jsnum \<Rightarrow> jsnum" where
  "js_neg NaN = NaN"
| "js_neg PosInf = NegInf"
| "js_neg NegInf = PosInf"
| "js_neg NegZero = Fin 0"
| "js_neg (Fin q) = (if q = 0 then NegZero else Fin (- q))"

section \<open>Number applied to a string\<close>

text \<open>
  \<open>Number(s)\<close> on a string is StringToNumber: white space and line terminators are
  trimmed at both ends; the empty rest is \<open>+0\<close>; otherwise the rest must be, in full, a
  StrNumericLiteral (a signed decimal literal with optional fraction and exponent, a
  signed \<open>Infinity\<close>, or an unsigned \<open>0x\<close>, \<open>0o\<close> or \<open>0b\<close> integer), and anything else
  is NaN. The mathematical value is rounded to a double.
\<close>

definition is_ws :: "jschar \<Rightarrow> bool" where
  "is_ws c =
     (c = 0x09 \<or> c = 0x0A \<or> c = 0x0B \<or> c = 0x0C \<or> c = 0x0D \<or> c = 0x20 \<or> c = 0xA0 \<or>
      c = 0x1680 \<or> (0x2000 \<le> c \<and> c \<le> 0x200A) \<or> c = 0x2028 \<or> c = 0x2029 \<or>
      c = 0x202F \<or> c = 0x205F \<or> c = 0x3000 \<or> c = 0xFEFF)"

definition trim :: "jsstring \<Rightarrow> jsstring" where
  "trim s = rev (dropWhile is_ws (rev (dropWhile is_ws s)))"

definition is_digit :: "jschar \<Rightarrow> bool" where
  "is_digit c = (0x30 \<le> c \<and> c \<le> 0x39)"

definition is_bin_digit :: "jschar \<Rightarrow> bool" where
  "is_bin_digit c = (c = 0x30 \<or> c = 0x31)"

definition is_oct_digit :: "jschar \<Rightarrow> bool" where
  "is_oct_digit c = (0x30 \<le> c \<and> c \<le> 0x37)"

definition is_hex_digit :: "jschar \<Rightarrow> bool" where
  "is_hex_digit c =
     ((0x30 \<le> c \<and> c \<le> 0x39) \<or> (0x41 \<le> c \<and> c \<le> 0x46) \<or> (0x61 \<le> c \<and> c \<le> 0x66))"

definition digit_of :: "jschar \<Rightarrow> nat" where
  "digit_of c =
     (if 0x61 \<le> c then unat c - 0x61 + 10
      else if 0x41 \<le> c then unat c - 0x41 + 10
      else unat c - 0x30)"

definition digits_val :: "nat \<Rightarrow> jsstring \<Rightarrow> nat" where
  "digits_val base ds = foldl (\<lambda>acc c. acc * base + digit_of c) 0 ds"

text \<open>SignedInteger of an ExponentPart: an optional sign and at least one digit.\<close>

definition signed_integer :: "jsstring \<Rightarrow> int option" where
  "signed_integer s =
     (let neg = (s \<noteq> [] \<and> hd s = 0x2D);
          ds = (if s \<noteq> [] \<and> (hd s = 0x2B \<or> hd s = 0x2D) then tl s else s)
      in if ds \<noteq> [] \<and> list_all is_digit ds
         then Some (if neg then - int (digits_val 10 ds) else int (digits_val 10 ds))
         else None)"

text \<open>
  StrUnsignedDecimalLiteral other than \<open>Infinity\<close>: digits, an optional \<open>.\<close> with
  digits, an optional exponent; at least one digit before the exponent.
\<close>

definition unsigned_decimal :: "jsstring \<Rightarrow> rat option" where
  "unsigned_decimal s =
     (let ip = takeWhile is_digit s;
          r1 = dropWhile is_digit s;
          dot = (r1 \<noteq> [] \<and> hd r1 = 0x2E);
          fp = (if dot then takeWhile is_digit (tl r1) else []);
          r2 = (if dot then dropWhile is_digit (tl r1) else r1)
      in if ip = [] \<and> fp = [] then None
         else if r2 = [] then
           Some (of_int (int (digits_val 10 (ip @ fp))) * pow10 (- int (length fp)))
         else if hd r2 = 0x65 \<or> hd r2 = 0x45 then
           (case signed_integer (tl r2) of
              None \<Rightarrow> None
            | Some e \<Rightarrow>
                Some (of_int (int (digits_val 10 (ip @ fp))) * pow10 (e - int (length fp))))
         else None)"

definition str_unsigned_decimal :: "jsstring \<Rightarrow> jsnum option" where
  "str_unsigned_decimal s =
     (if s = ascii ''Infinity'' then Some PosInf
      else map_option to_double (unsigned_decimal s))"

definition str_decimal :: "jsstring \<Rightarrow> jsnum option" where
  "str_decimal s =
     (if s \<noteq> [] \<and> hd s = 0x2B then str_unsigned_decimal (tl s)
      else if s \<noteq> [] \<and> hd s = 0x2D then map_option js_neg (str_unsigned_decimal (tl s))
      else str_unsigned_decimal s)"

definition non_decimal :: "jsstring \<Rightarrow> jsnum option" where
  "non_decimal s =
     (case s of
        z # p # ds \<Rightarrow>
          if z = 0x30 \<and> ds \<noteq> [] then
            (if (p = 0x62 \<or> p = 0x42) \<and> list_all is_bin_digit ds
               then Some (to_double (of_int (int (digits_val 2 ds))))
             else if (p = 0x6F \<or> p = 0x4F) \<and> list_all is_oct_digit ds
               then Some (to_double (of_int (int (digits_val 8 ds))))
             else if (p = 0x78 \<or> p = 0x58) \<and> list_all is_hex_digit ds
               then Some (to_double (of_int (int (digits_val 16 ds))))
             else None)
          else None
      | _ \<Rightarrow> None)"

definition Number :: "jsstring \<Rightarrow> jsnum" where
  "Number s =
     (let t = trim s
      in if t = [] then Fin 0
         else (case non_decimal t of
                 Some v \<Rightarrow> v
               | None \<Rightarrow> (case str_decimal t of Some v \<Rightarrow> v | None \<Rightarrow> NaN)))"

section \<open>compareVersions\<close>

text \<open>\<open>s.split(c)\<close> with a one-unit separator: the pieces between the separators.\<close>

fun split :: "'a \<Rightarrow> 'a list \<Rightarrow> 'a list list" where
  "split c [] = [[]]"
| "split c (x # xs) =
     (if x = c then [] # split c xs
      else (case split c xs of [] \<Rightarrow> [[x]] | p # ps \<Rightarrow> (x # p) # ps))"

text \<open>
  \<open>v.split('.').map(Number)\<close>: only a string has a \<open>split\<close> method; on any other
  truthy value the call throws a TypeError.
\<close>

fun parts_of :: "jsval \<Rightarrow> js_error + jsnum list" where
  "parts_of (Str s) = Inr (map Number (split 0x2E s))"
| "parts_of v = Inl TypeError"

text \<open>
  \<open>parts[i] || 0\<close>: the element when the index is in range and the element is truthy,
  and \<open>0\<close> for an index out of range (\<open>undefined\<close>), for NaN and for either zero.
\<close>

definition elem_or_zero :: "jsnum list \<Rightarrow> nat \<Rightarrow> jsnum" where
  "elem_or_zero parts i =
     (if i < length parts \<and> truthy_num (parts ! i) then parts ! i else Fin 0)"

function cmp_loop :: "jsnum list \<Rightarrow> jsnum list \<Rightarrow> nat \<Rightarrow> int" where
  "cmp_loop parts1 parts2 i =
     (if i < max (length parts1) (length parts2) then
        (let num1 = elem_or_zero parts1 i;
             num2 = elem_or_zero parts2 i
         in if js_greater num1 num2 then 1
            else if js_less num1 num2 then - 1
            else cmp_loop parts1 parts2 (i + 1))
      else 0)"
  by pat_completeness auto
termination
  by (relation "measure (\<lambda>(p1, p2, i). max (length p1) (length p2) - i)") auto

declare cmp_loop.simps [simp del]

definition compareVersions :: "jsval \<Rightarrow> jsval \<Rightarrow> js_error + int" where
  "compareVersions v1 v2 =
     (if \<not> truthy v1 \<or> \<not> truthy v2 then Inr 0
      else (case parts_of v1 of
              Inl e \<Rightarrow> Inl e
            | Inr parts1 \<Rightarrow>
                (case parts_of v2 of
                   Inl e \<Rightarrow> Inl e
                 | Inr parts2 \<Rightarrow> Inr (cmp_loop parts1 parts2 0))))"

section \<open>The two stores and the request handlers\<close>

text \<open>
  The server keeps two files under \<open>firmware/\<close>. \<open>version.json\<close> is held as the value
  \<open>JSON.parse\<close> returns for its text (\<open>None\<close> when reading or parsing throws); what
  \<open>JSON.stringify\<close> writes is read back as the same value. \<open>firmware.bin\<close> is held as
  its bytes (\<open>None\<close> when the file does not exist). The handlers run one after the other:
  a handler's reads all see the state it was started in.
\<close>

type_synonym byte = "8 word"

record server_state =
  version_file :: "jsval option"
  firmware_file :: "byte list option"

text \<open>
  What a handler does to \<open>res\<close>, in the order of the calls: \<open>res.status(n)\<close>,
  \<open>res.setHeader(name, value)\<close>, \<open>res.json(value)\<close>, and the file stream piped into the
  response body. \<open>res.json\<close> serialises with \<open>JSON.stringify\<close>, which leaves out a
  property whose value is \<open>undefined\<close>.
\<close>

datatype res_action =
    Status nat
  | SetHeader string jsval
  | Json jsval
  | Pipe "byte list"

definition error_json :: "string \<Rightarrow> res_action" where
  "error_json msg = Json (Obj [(''error'', Str (ascii msg))])"

text \<open>
  A byte count as a Number: a file is shorter than \<open>2^53\<close> bytes, where the double is
  the integer itself.
\<close>

definition size_value :: "nat \<Rightarrow> jsval" where
  "size_value n = Num (Fin (of_int (int n)))"

text \<open>\<open>GET /version\<close>\<close>

definition get_version :: "server_state \<Rightarrow> res_action list" where
  "get_version st =
     (case version_file st of
        Some data \<Rightarrow> [Json data]
      | None \<Rightarrow> [Status 500, error_json ''Failed to read version''])"

text \<open>
  \<open>data.version\<close>: a property read throws on \<open>null\<close> and \<open>undefined\<close>, finds the
  property of an object, and is \<open>undefined\<close> on the other values, which have no
  property of that name.
\<close>

fun version_of :: "jsval \<Rightarrow> js_error + jsval" where
  "version_of Undefined = Inl TypeError"
| "version_of Null = Inl TypeError"
| "version_of (Obj kvs) = Inr (case map_of kvs ''version'' of None \<Rightarrow> Undefined | Some v \<Rightarrow> v)"
| "version_of v = Inr Undefined"

text \<open>
  \<open>GET /check\<close>: \<open>req.query.version\<close> and \<open>req.headers['x-esp8266-version']\<close>, each
  \<open>undefined\<close> when the request does not carry it.
\<close>

record check_req =
  query_version :: jsval
  header_version :: jsval

definition deviceVersion :: "check_req \<Rightarrow> jsval" where
  "deviceVersion req = js_or (query_version req) (header_version req)"

definition check_failed :: "res_action list" where
  "check_failed = [Status 500, error_json ''Failed to check version'']"

definition get_check :: "check_req \<Rightarrow> server_state \<Rightarrow> res_action list" where
  "get_check req st =
     (case version_file st of
        None \<Rightarrow> check_failed
      | Some data \<Rightarrow>
          (case version_of data of
             Inl e \<Rightarrow> check_failed
           | Inr serverVersion \<Rightarrow>
               (case compareVersions serverVersion (deviceVersion req) of
                  Inl e \<Rightarrow> check_failed
                | Inr c \<Rightarrow>
                    [Json (Obj [(''currentVersion'', deviceVersion req),
                                (''latestVersion'', serverVersion),
                                (''updateAvailable'', Bool (0 < c))])])))"

text \<open>
  \<open>getMD5\<close> reads the whole file and returns the hexadecimal digest of the buffer. The
  digest is Node's \<open>crypto\<close> module, a parameter here: \<open>md5_hex\<close> is
  \<open>createHash('md5').update(buffer).digest('hex')\<close>.
\<close>

definition getMD5 :: "(byte list \<Rightarrow> jsstring) \<Rightarrow> server_state \<Rightarrow> jsstring option" where
  "getMD5 md5_hex st = map_option md5_hex (firmware_file st)"

text \<open>\<open>GET /firmware\<close>\<close>

definition get_firmware :: "(byte list \<Rightarrow> jsstring) \<Rightarrow> server_state \<Rightarrow> res_action list" where
  "get_firmware md5_hex st =
     (case firmware_file st of
        None \<Rightarrow> [Status 404, error_json ''Firmware not found'']
      | Some bytes \<Rightarrow>
          (case getMD5 md5_hex st of
             None \<Rightarrow> [Status 500]
           | Some digest \<Rightarrow>
               [SetHeader ''Content-Type'' (Str (ascii ''application/octet-stream'')),
                SetHeader ''Content-Disposition'' (Str (ascii ''attachment; filename=firmware.bin'')),
                SetHeader ''Content-Length'' (size_value (length bytes)),
                SetHeader ''x-MD5'' (Str digest),
                Pipe bytes]))"

text \<open>
  \<open>POST /update\<close>. The route runs \<open>upload.single('firmware')\<close> before the handler: the
  disk storage configured at the top of the file writes the file part named
  \<open>firmware\<close>, when the request has one, to \<open>firmware/firmware.bin\<close> and sets
  \<open>req.file\<close>, whose \<open>size\<close> is the number of bytes written; the text fields become
  \<open>req.body\<close>.
\<close>

record update_req =
  firmware_part :: "byte list option"
  body_version :: jsval

definition upload_single :: "update_req \<Rightarrow> server_state \<Rightarrow> nat option \<times> server_state" where
  "upload_single req st =
     (case firmware_part req of
        None \<Rightarrow> (None, st)
      | Some bytes \<Rightarrow> (Some (length bytes), st\<lparr>firmware_file := Some bytes\<rparr>))"

text \<open>The handler proper; \<open>now\<close> is \<open>new Date().toISOString()\<close>.\<close>

definition update_handler ::
  "jsstring \<Rightarrow> nat option \<Rightarrow> jsval \<Rightarrow> server_state \<Rightarrow> res_action list \<times> server_state" where
  "update_handler now file newVersion st =
     (case file of
        None \<Rightarrow> ([Status 400, error_json ''No firmware file uploaded''], st)
      | Some file_size \<Rightarrow>
          if \<not> truthy newVersion then
            ([Status 400, error_json ''Version number required''], st)
          else
            ([Json (Obj [(''success'', Bool True),
                         (''message'', Str (ascii ''Firmware updated successfully'')),
                         (''version'', newVersion),
                         (''size'', size_value file_size)])],
             st\<lparr>version_file :=
                  Some (Obj [(''version'', newVersion),
                             (''updatedAt'', Str now),
                             (''size'', size_value file_size)])\<rparr>))"

definition post_update ::
  "jsstring \<Rightarrow> update_req \<Rightarrow> server_state \<Rightarrow> res_action list \<times> server_state" where
  "post_update now req st =
     (case upload_single req st of
        (file, st') \<Rightarrow> update_handler now file (body_version req) st')"

text \<open>
  The version record is backed by the blob when the size it records, if it records one,
  is the length of the blob in the binary store.
\<close>

definition size_of :: "jsval \<Rightarrow> jsval" where
  "size_of data =
     (case data of
        Obj kvs \<Rightarrow> (case map_of kvs ''size'' of None \<Rightarrow> Undefined | Some v \<Rightarrow> v)
      | _ \<Rightarrow> Undefined)"

definition record_backed :: "server_state \<Rightarrow> bool" where
  "record_backed st =
     (case version_file st of
        None \<Rightarrow> True
      | Some data \<Rightarrow>
          (case size_of data of
             Undefined \<Rightarrow> True
           | v \<Rightarrow>
               (case firmware_file st of
                  None \<Rightarrow> False
                | Some bytes \<Rightarrow> v = size_value (length bytes))))"

section \<open>The comparison as the specification words it\<close>

text \<open>
  Split on \<open>.\<close>; a segment is a non-negative integer written in decimal digits, any
  other segment counts as 0; compare segment by segment up to the longer length, a
  missing segment counting as 0; the first pair that differs decides.
\<close>

datatype cmp_result = LESS | EQUAL | GREATER

definition spec_segment :: "jsstring \<Rightarrow> nat" where
  "spec_segment seg =
     (if seg \<noteq> [] \<and> list_all is_digit seg then digits_val 10 seg else 0)"

fun spec_cmp :: "nat list \<Rightarrow> nat list \<Rightarrow> cmp_result" where
  "spec_cmp [] [] = EQUAL"
| "spec_cmp (x # xs) [] =
     (if 0 < x then GREATER else spec_cmp xs [])"
| "spec_cmp [] (y # ys) =
     (if 0 < y then LESS else spec_cmp [] ys)"
| "spec_cmp (x # xs) (y # ys) =
     (if y < x then GREATER else if x < y then LESS else spec_cmp xs ys)"

definition spec_compare :: "jsstring \<Rightarrow> jsstring \<Rightarrow> cmp_result" where
  "spec_compare a b =
     spec_cmp (map spec_segment (split 0x2E a)) (map spec_segment (split 0x2E b))"


text \<open>
  A plain segment: decimal digits only (possibly none) with a value of at most \<open>2^53\<close>,
  or a segment that \<open>Number\<close> does not parse.
\<close>

definition plain_segment :: "jsstring \<Rightarrow> bool" where
  "plain_segment seg =
     ((list_all is_digit seg \<and> digits_val 10 seg \<le> 2 ^ 53) \<or> Number seg = NaN)"

definition plain_version :: "jsstring \<Rightarrow> bool" where
  "plain_version v = list_all plain_segment (split 0x2E v)"


section \<open>Facts about the rounding\<close>

lemma bit_length_upper: "n < 2 ^ bit_length n"
proof (induction n rule: bit_length.induct)
  case (1 n)
  show ?case
  proof (cases "n = 0")
    case True
    then show ?thesis by (simp add: bit_length.simps)
  next
    case False
    with 1 have "n div 2 < 2 ^ bit_length (n div 2)" by simp
    then have "n < 2 * 2 ^ bit_length (n div 2)" by linarith
    with False show ?thesis by (subst bit_length.simps) simp
  qed
qed

lemma bit_length_lower: "0 < n \<Longrightarrow> 2 ^ bit_length n \<le> 2 * n"
proof (induction n rule: bit_length.induct)
  case (1 n)
  show ?case
  proof (cases "n div 2 = 0")
    case True
    with 1(2) have "n = 1" by (simp add: div_eq_0_iff) 
    then show ?thesis by (simp add: bit_length.simps)
  next
    case False
    with 1 have "2 ^ bit_length (n div 2) \<le> 2 * (n div 2)" by simp
    then have "2 * 2 ^ bit_length (n div 2) \<le> 2 * n" by linarith
    with 1(2) show ?thesis by (subst bit_length.simps) simp
  qed
qed

lemma pow2_powi: "pow2 k = 2 powi k"
  by (simp add: pow2_def power_int_def inverse_eq_divide power_one_over)

lemma pow2_pos: "0 < pow2 k"
  by (simp add: pow2_powi)

lemma pow2_add: "pow2 (i + j) = pow2 i * pow2 j"
  by (simp add: pow2_powi power_int_add)

lemma pow2_nat: "pow2 (int n) = 2 ^ n"
  by (simp add: pow2_def)

lemma pow2_strict_mono: "i < j \<Longrightarrow> pow2 i < pow2 j"
  by (simp add: pow2_powi power_int_strict_increasing)

lemma pow2_mono: "i \<le> j \<Longrightarrow> pow2 i \<le> pow2 j"
  by (simp add: pow2_powi power_int_increasing)

lemma pow2_less_iff: "pow2 i < pow2 j \<longleftrightarrow> i < j"
  using pow2_strict_mono [of i j] pow2_mono [of j i] by (auto simp: not_le [symmetric])

lemma pow2_le_iff: "pow2 i \<le> pow2 j \<longleftrightarrow> i \<le> j"
  using pow2_strict_mono [of j i] pow2_mono [of i j] by (auto simp: not_less [symmetric])

lemma binade_bounds:
  assumes "0 < q"
  shows "pow2 (binade q) \<le> q \<and> q < pow2 (binade q + 1)"
proof -
  obtain a b where ab: "quotient_of q = (a, b)" by force
  have bpos: "0 < b" using quotient_of_denom_pos [OF ab] .
  have q: "q = of_int a / of_int b" using quotient_of_div [OF ab] .
  have apos: "0 < a"
    using assms bpos by (simp add: q zero_less_divide_iff)
  define A where "A = bit_length (nat a)"
  define B where "B = bit_length (nat b)"
  have a_up: "nat a < 2 ^ A" unfolding A_def by (rule bit_length_upper)
  have b_up: "nat b < 2 ^ B" unfolding B_def by (rule bit_length_upper)
  have a_lo: "2 ^ A \<le> 2 * nat a" unfolding A_def using apos by (intro bit_length_lower) simp
  have b_lo: "2 ^ B \<le> 2 * nat b" unfolding B_def using bpos by (intro bit_length_lower) simp
  have ra: "(of_int a :: rat) = of_nat (nat a)" using apos by simp
  have rb: "(of_int b :: rat) = of_nat (nat b)" using bpos by simp
  have a_up': "(of_int a :: rat) < 2 ^ A"
    unfolding ra using a_up by (metis of_nat_less_iff of_nat_numeral of_nat_power)
  have b_up': "(of_int b :: rat) < 2 ^ B"
    unfolding rb using b_up by (metis of_nat_less_iff of_nat_numeral of_nat_power)
  have a_lo': "(2 ^ A :: rat) \<le> 2 * of_int a"
    unfolding ra using a_lo by (metis of_nat_le_iff of_nat_numeral of_nat_power of_nat_mult)
  have b_lo': "(2 ^ B :: rat) \<le> 2 * of_int b"
    unfolding rb using b_lo by (metis of_nat_le_iff of_nat_numeral of_nat_power of_nat_mult)
  have bq: "0 < (of_int b :: rat)" using bpos by simp
  have upper: "q < pow2 (int A - int B + 1)"
  proof -
    have "of_int a * 2 ^ B < (2 ^ A :: rat) * 2 ^ B"
      using a_up' by simp
    also have "\<dots> \<le> 2 ^ A * (2 * of_int b)"
      using b_lo' by simp
    finally have "of_int a * 2 ^ B < (2 ^ A :: rat) * (2 * of_int b)" .
    then have "of_int a / of_int b < (2 ^ A * 2 :: rat) / 2 ^ B"
      using bq by (simp add: field_simps)
    also have "(2 ^ A * 2 :: rat) / 2 ^ B = pow2 (int A - int B + 1)"
    proof -
      have "pow2 (int A - int B + 1) * pow2 (int B) = pow2 (int (Suc A))"
        by (simp add: pow2_add [symmetric] algebra_simps)
      then have "pow2 (int A - int B + 1) * 2 ^ B = 2 ^ A * 2"
        by (simp only: pow2_nat power_Suc mult.commute)
      then show ?thesis by (simp add: field_simps)
    qed
    finally show ?thesis by (simp add: q)
  qed
  have lower: "pow2 (int A - int B - 1) \<le> q"
  proof -
    have "(2 ^ A :: rat) * of_int b \<le> (2 * of_int a) * of_int b"
      using a_lo' bq by simp
    also have "\<dots> \<le> (2 * of_int a) * 2 ^ B"
      using b_up' apos by simp
    finally have "(2 ^ A :: rat) * of_int b \<le> (2 * of_int a) * 2 ^ B" .
    then have "(2 ^ A :: rat) / (2 * 2 ^ B) \<le> of_int a / of_int b"
      using bq by (simp add: field_simps)
    moreover have "(2 ^ A :: rat) / (2 * 2 ^ B) = pow2 (int A - int B - 1)"
    proof -
      have "pow2 (int A - int B - 1) * pow2 (int (Suc B)) = pow2 (int A)"
        by (simp add: pow2_add [symmetric] algebra_simps)
      then have "pow2 (int A - int B - 1) * (2 * 2 ^ B) = 2 ^ A"
        by (simp only: pow2_nat power_Suc)
      then show ?thesis by (simp add: field_simps)
    qed
    ultimately show ?thesis by (simp add: q)
  qed
  show ?thesis
  proof (cases "pow2 (int A - int B) \<le> q")
    case True
    then have "binade q = int A - int B"
      by (simp add: binade_def ab A_def B_def)
    with True upper show ?thesis by simp
  next
    case False
    then have "binade q = int A - int B - 1"
      by (simp add: binade_def ab A_def B_def)
    with False lower show ?thesis by simp
  qed
qed


lemma round_half_even_of_int: "round_half_even (of_int m) = m"
  by (simp add: round_half_even_def)

lemma to_double_exact:
  assumes "0 < q" and "q / pow2 (max (binade q) (- 1022) - 52) = of_int m" and "q < pow2 1024"
  shows "to_double q = Fin q"
proof -
  define u where "u = pow2 (max (binade q) (- 1022) - 52)"
  have upos: "0 < u" unfolding u_def by (rule pow2_pos)
  have "q / u = of_int m" using assms(2) by (simp add: u_def)
  then have r: "of_int (round_half_even (q / u)) * u = q"
    using upos by (simp add: round_half_even_of_int field_simps)
  show ?thesis
    using assms(1,3) r by (simp add: to_double_def Let_def u_def [symmetric])
qed

lemma to_double_nat:
  assumes "n \<le> 2 ^ 53"
  shows "to_double (of_nat n) = Fin (of_nat n)"
proof (cases "n = 0")
  case True
  then show ?thesis by (simp add: to_double_def)
next
  case False
  define q :: rat where "q = of_nat n"
  have qpos: "0 < q" and q1: "1 \<le> q" using False by (simp_all add: q_def)
  have q53: "q \<le> pow2 53"
  proof -
    have "(of_nat n :: rat) \<le> of_nat (2 ^ 53)" using assms by (simp only: of_nat_le_iff)
    then show ?thesis by (simp add: q_def pow2_def)
  qed
  define k where "k = binade q"
  have lo: "pow2 k \<le> q" and hi: "q < pow2 (k + 1)"
    using binade_bounds [OF qpos] by (simp_all add: k_def)
  have "pow2 0 < pow2 (k + 1)" using q1 hi by (simp add: pow2_def)
  then have k0: "0 \<le> k" by (simp add: pow2_less_iff)
  have "pow2 k \<le> pow2 53" using lo q53 by simp
  then have k53: "k \<le> 53" by (simp add: pow2_le_iff)
  have mx: "max k (- 1022) = k" using k0 by simp
  have "\<exists>m. q / pow2 (k - 52) = of_int m"
  proof (cases "k \<le> 52")
    case True
    have "pow2 (k - 52) * pow2 (52 - k) = 1"
      using pow2_add [of "k - 52" "52 - k"] by (simp add: pow2_def)
    then have "q / pow2 (k - 52) = q * pow2 (52 - k)"
      using pow2_pos [of "k - 52"] by (simp add: field_simps)
    also have "\<dots> = of_int (int n * 2 ^ nat (52 - k))"
      using True by (simp add: q_def pow2_def)
    finally show ?thesis by blast
  next
    case False
    with k53 have k: "k = 53" by simp
    with lo q53 have "q = pow2 53" by simp
    then have "q / pow2 (k - 52) = of_int (2 ^ 52)"
      by (simp add: k pow2_def)
    then show ?thesis by blast
  qed
  then obtain m where m: "q / pow2 (max (binade q) (- 1022) - 52) = of_int m"
    using mx by (auto simp: k_def)
  have "q < pow2 1024"
  proof -
    have "pow2 53 < pow2 1024" by (simp add: pow2_less_iff)
    with q53 show ?thesis by simp
  qed
  from to_double_exact [OF qpos m this] show ?thesis by (simp add: q_def)
qed

lemma digit_not_ws: "is_digit c \<Longrightarrow> \<not> is_ws c"
  by (auto simp: is_digit_def is_ws_def word_le_nat_alt)

lemma trim_digits: "list_all is_digit s \<Longrightarrow> trim s = s"
proof (cases "s = []")
  case True
  then show ?thesis by (simp add: trim_def)
next
  case False
  assume d: "list_all is_digit s"
  with False have "is_digit (hd s)" and "is_digit (last s)"
    by (simp_all add: list_all_iff)
  then have "\<not> is_ws (hd s)" and "\<not> is_ws (hd (rev s))"
    using False by (simp_all add: digit_not_ws hd_rev)
  then have a: "dropWhile is_ws s = s" and b: "dropWhile is_ws (rev s) = rev s"
    by (simp_all only: dropWhile_eq_self_iff simp_thms)
  show ?thesis
    unfolding trim_def a b by simp
qed

lemma non_decimal_digits: "list_all is_digit s \<Longrightarrow> non_decimal s = None"
  by (auto simp: non_decimal_def is_digit_def word_le_nat_alt split: list.splits)

lemma unsigned_decimal_digits:
  "s \<noteq> [] \<Longrightarrow> list_all is_digit s \<Longrightarrow>
   unsigned_decimal s = Some (of_int (int (digits_val 10 s)))"
proof -
  assume ne: "s \<noteq> []" and d: "list_all is_digit s"
  then have tw: "takeWhile is_digit s = s" and dw: "dropWhile is_digit s = []"
    by (simp_all add: list_all_iff)
  show ?thesis
    unfolding unsigned_decimal_def tw dw Let_def using ne by (simp add: pow10_def)
qed

lemma Number_digits:
  assumes "s \<noteq> []" and "list_all is_digit s"
  shows "Number s = to_double (of_int (int (digits_val 10 s)))"
proof -
  have h: "is_digit (hd s)" using assms by (simp add: list_all_iff)
  then have "hd s \<noteq> 0x2B" and "hd s \<noteq> 0x2D"
    by (auto simp: is_digit_def)
  moreover have "s \<noteq> ascii ''Infinity''"
    using h by (auto simp: is_digit_def ascii_def)
  ultimately have "str_decimal s = Some (to_double (of_int (int (digits_val 10 s))))"
    using assms by (simp add: str_decimal_def str_unsigned_decimal_def unsigned_decimal_digits)
  then show ?thesis
    using assms by (simp add: Number_def trim_digits non_decimal_digits)
qed

section \<open>Facts about the comparison loop\<close>

lemma js_less_asym: "js_less a b \<Longrightarrow> \<not> js_less b a"
  by (cases a; cases b) simp_all

lemma cmp_loop_range: "cmp_loop p1 p2 i = 1 \<or> cmp_loop p1 p2 i = 0 \<or> cmp_loop p1 p2 i = - 1"
proof (induction p1 p2 i rule: cmp_loop.induct)
  case (1 parts1 parts2 i)
  then show ?case
    by (subst (1 2 3) cmp_loop.simps) (simp add: Let_def)
qed

lemma cmp_loop_swap: "cmp_loop p2 p1 i = - cmp_loop p1 p2 i"
proof (induction p1 p2 i rule: cmp_loop.induct)
  case (1 parts1 parts2 i)
  show ?case
  proof (cases "i < max (length parts1) (length parts2)")
    case False
    then show ?thesis
      by (simp add: cmp_loop.simps [of parts1 parts2 i] cmp_loop.simps [of parts2 parts1 i] max.commute)
  next
    case True
    let ?a = "elem_or_zero parts1 i" and ?b = "elem_or_zero parts2 i"
    consider "js_less ?b ?a" | "js_less ?a ?b" | "\<not> js_less ?b ?a" "\<not> js_less ?a ?b"
      by blast
    then show ?thesis
    proof cases
      case 1
      with True js_less_asym [of ?b ?a] show ?thesis
        by (simp add: cmp_loop.simps [of parts1 parts2 i] cmp_loop.simps [of parts2 parts1 i]
            max.commute js_greater_def)
    next
      case 2
      with True js_less_asym [of ?a ?b] show ?thesis
        by (simp add: cmp_loop.simps [of parts1 parts2 i] cmp_loop.simps [of parts2 parts1 i]
            max.commute js_greater_def)
    next
      case 3
      with True "1.IH" [of ?a ?b] show ?thesis
        by (simp add: cmp_loop.simps [of parts1 parts2 i] cmp_loop.simps [of parts2 parts1 i]
            max.commute js_greater_def)
    qed
  qed
qed

lemma cmp_loop_same: "cmp_loop p p i = 0"
  using cmp_loop_swap [of p p i] by simp

lemma compareVersions_Str:
  "compareVersions (Str a) (Str b) =
     (if a = [] \<or> b = [] then Inr 0
      else Inr (cmp_loop (map Number (split 0x2E a)) (map Number (split 0x2E b)) 0))"
  by (simp add: compareVersions_def)

lemma elem_or_zero_not_NaN: "elem_or_zero parts i \<noteq> NaN"
  by (auto simp: elem_or_zero_def)

section \<open>The loop against the segment-wise comparison\<close>


lemma Number_plain_digits:
  assumes "s \<noteq> []" and "list_all is_digit s" and "digits_val 10 s \<le> 2 ^ 53"
  shows "Number s = Fin (of_nat (digits_val 10 s))"
  using to_double_nat [OF assms(3)] Number_digits [OF assms(1,2)] by simp

lemma Number_Nil: "Number [] = Fin 0"
  by (simp add: Number_def trim_def)





lemmas eval_version =
  compareVersions_Str ascii_def cmp_loop.simps elem_or_zero_def js_greater_def
  Number_plain_digits Number_Nil is_digit_def digits_val_def digit_of_def
  spec_compare_def spec_segment_def plain_version_def plain_segment_def

section \<open>Evaluation on concrete requests\<close>

lemmas eval_number =
  Number_def non_decimal_def str_decimal_def str_unsigned_decimal_def ascii_def trim_def
  is_ws_def unsigned_decimal_def signed_integer_def digits_val_def digit_of_def is_digit_def
  pow10_def to_double_def binade_def bit_length.simps pow2_def round_half_even_def Let_def

lemmas eval_handler =
  get_check_def get_version_def get_firmware_def getMD5_def post_update_def upload_single_def
  update_handler_def deviceVersion_def js_or_def check_failed_def error_json_def size_value_def
  record_backed_def size_of_def


lemma Number_letters: "Number (ascii ''abc'') = NaN"
  by (simp add: eval_number)

lemma compareVersions_range:
  "compareVersions v1 v2 = Inr c \<Longrightarrow> c = 1 \<or> c = 0 \<or> c = - 1"
  using cmp_loop_range
  by (fastforce simp: compareVersions_def split: if_splits sum.splits)

lemma compare_101_100:
  "compareVersions (Str (ascii ''1.0.1'')) (Str (ascii ''1.0.0'')) = Inr 1"
  by (simp add: eval_version)

text \<open>
  Above \<open>2^53\<close> the doubles are further apart than 1: \<open>2^53 + 1\<close> is read as
  \<open>2^53\<close>, and two versions that differ there compare as equal.
\<close>

lemma floor_rat_numeral: "\<lfloor>(numeral a :: rat) / numeral b\<rfloor> = numeral a div numeral b"
  using floor_divide_of_int_eq [of "numeral a" "numeral b", where ?'a = rat] by simp

lemma Number_above_2_53: "Number (ascii ''9007199254740993'') = Fin 9007199254740992"
  by (simp add: eval_number floor_rat_numeral)

lemma compareVersions_above_2_53:
  "compareVersions (Str (ascii ''9007199254740993'')) (Str (ascii ''9007199254740992'')) = Inr 0 \<and>
   spec_compare (ascii ''9007199254740993'') (ascii ''9007199254740992'') = GREATER"
  using Number_above_2_53 by (simp add: eval_version)

section \<open>The claims\<close>




text \<open>
  C2 (the code departs from it). An upload with a binary payload and no version string is
  refused with status 400, but the middleware has already written the payload over
  \<open>firmware.bin\<close>: the version record still gives the size of the old blob.
\<close>

theorem update_without_version_replaces_blob:
  "record_backed
     \<lparr>version_file = Some (Obj [(''version'', Str (ascii ''1.0.0'')), (''size'', size_value 3)]),
      firmware_file = Some [1, 2, 3]\<rparr> \<and>
   post_update now \<lparr>firmware_part = Some [9, 9, 9, 9, 9], body_version = Undefined\<rparr>
     \<lparr>version_file = Some (Obj [(''version'', Str (ascii ''1.0.0'')), (''size'', size_value 3)]),
      firmware_file = Some [1, 2, 3]\<rparr> =
     ([Status 400, error_json ''Version number required''],
      \<lparr>version_file = Some (Obj [(''version'', Str (ascii ''1.0.0'')), (''size'', size_value 3)]),
       firmware_file = Some [9, 9, 9, 9, 9]\<rparr>) \<and>
   \<not> record_backed
     \<lparr>version_file = Some (Obj [(''version'', Str (ascii ''1.0.0'')), (''size'', size_value 3)]),
      firmware_file = Some [9, 9, 9, 9, 9]\<rparr>"
  by (simp add: eval_handler)




text \<open>
  C5. Every successful \<open>GET /check\<close> answers from a readable version record: it echoes the
  device version as \<open>currentVersion\<close> and the stored version as \<open>latestVersion\<close>, and
  \<open>updateAvailable\<close> is true exactly when \<open>compareVersions\<close> of the stored version
  against the device version is 1 (GREATER).
\<close>

theorem check_reports_update:
  assumes "get_check req st = [Json body]"
  shows "\<exists>data s. version_file st = Some data \<and> version_of data = Inr s \<and>
     body = Obj [(''currentVersion'', deviceVersion req),
                 (''latestVersion'', s),
                 (''updateAvailable'', Bool (compareVersions s (deviceVersion req) = Inr 1))]"
proof -
  from assms obtain data where d: "version_file st = Some data"
    by (auto simp: get_check_def check_failed_def split: option.splits)
  from assms d obtain s where s: "version_of data = Inr s"
    by (auto simp: get_check_def check_failed_def split: sum.splits)
  from assms d s obtain c where c: "compareVersions s (deviceVersion req) = Inr c"
    by (auto simp: get_check_def check_failed_def split: sum.splits)
  from compareVersions_range [OF c] have "(0 < c) = (c = 1)" by auto
  with assms d s c show ?thesis
    by (simp add: get_check_def)
qed

theorem check_reports_update_witness:
  "get_check \<lparr>query_version = Str (ascii ''1.0.0''), header_version = Undefined\<rparr>
     \<lparr>version_file = Some (Obj [(''version'', Str (ascii ''1.0.1''))]), firmware_file = None\<rparr> =
     [Json (Obj [(''currentVersion'', Str (ascii ''1.0.0'')),
                 (''latestVersion'', Str (ascii ''1.0.1'')),
                 (''updateAvailable'', Bool True)])]"
proof -
  let ?req = "\<lparr>query_version = Str (ascii ''1.0.0''), header_version = Undefined\<rparr>"
  let ?st = "\<lparr>version_file = Some (Obj [(''version'', Str (ascii ''1.0.1''))]), firmware_file = None\<rparr>"
  have d: "deviceVersion ?req = Str (ascii ''1.0.0'')"
    by (simp add: deviceVersion_def js_or_def ascii_def)
  have "\<exists>body. get_check ?req ?st = [Json body]"
    by (simp add: get_check_def d compare_101_100)
  then obtain body where b: "get_check ?req ?st = [Json body]" by blast
  from check_reports_update [OF b] show ?thesis
    by (simp add: b d compare_101_100)
qed

text \<open>
  C6. A successful upload with version string \<open>v\<close> and a payload of \<open>n\<close> bytes: the
  middleware replaces the blob first, the handler then replaces the version record with
  \<open>{version: v, updatedAt: now, size: n}\<close> and answers success with \<open>v\<close> and \<open>n\<close>,
  and a following \<open>GET /version\<close> returns that record, whose version is \<open>v\<close> and whose
  size is \<open>n\<close>.
\<close>

theorem upload_round_trip:
  assumes "v \<noteq> []"
  shows "upload_single \<lparr>firmware_part = Some bytes, body_version = Str v\<rparr> st =
       (Some (length bytes), st\<lparr>firmware_file := Some bytes\<rparr>) \<and>
     post_update now \<lparr>firmware_part = Some bytes, body_version = Str v\<rparr> st =
       ([Json (Obj [(''success'', Bool True),
                    (''message'', Str (ascii ''Firmware updated successfully'')),
                    (''version'', Str v),
                    (''size'', size_value (length bytes))])],
        st\<lparr>firmware_file := Some bytes,
           version_file :=
             Some (Obj [(''version'', Str v),
                        (''updatedAt'', Str now),
                        (''size'', size_value (length bytes))])\<rparr>) \<and>
     get_version (snd (post_update now \<lparr>firmware_part = Some bytes, body_version = Str v\<rparr> st)) =
       [Json (Obj [(''version'', Str v),
                   (''updatedAt'', Str now),
                   (''size'', size_value (length bytes))])] \<and>
     record_backed (snd (post_update now \<lparr>firmware_part = Some bytes, body_version = Str v\<rparr> st))"
  using assms by (simp add: eval_handler)

theorem upload_round_trip_witness:
  "ascii ''2.0.0'' \<noteq> [] \<and>
   get_version
     (snd (post_update (ascii ''2024-01-01T00:00:00.000Z'')
        \<lparr>firmware_part = Some [1, 2, 3], body_version = Str (ascii ''2.0.0'')\<rparr>
        \<lparr>version_file = Some (Obj [(''version'', Str (ascii ''1.0.0''))]), firmware_file = None\<rparr>)) =
     [Json (Obj [(''version'', Str (ascii ''2.0.0'')),
                 (''updatedAt'', Str (ascii ''2024-01-01T00:00:00.000Z'')),
                 (''size'', size_value 3)])]"
proof -
  have n: "ascii ''2.0.0'' \<noteq> []" by (simp add: ascii_def)
  from upload_round_trip [OF n, of "[1, 2, 3]"
      "\<lparr>version_file = Some (Obj [(''version'', Str (ascii ''1.0.0''))]), firmware_file = None\<rparr>"
      "ascii ''2024-01-01T00:00:00.000Z''"]
  show ?thesis using n by (simp add: get_version_def size_value_def)
qed

text \<open>
  C7. \<open>GET /firmware\<close> answers 404 when there is no blob. Otherwise it sets, before the
  body, the content type, the content disposition naming \<open>firmware.bin\<close>, the content
  length (the number of bytes of the blob) and \<open>x-MD5\<close> (the digest of all the bytes of
  the blob), and then sends the whole blob. After a successful upload the blob is the
  uploaded payload. The digest function of Node's \<open>crypto\<close> is the parameter
  \<open>md5_hex\<close>.
\<close>

theorem firmware_download:
  "(firmware_file st = None \<longrightarrow>
      get_firmware md5_hex st = [Status 404, error_json ''Firmware not found'']) \<and>
   (firmware_file st = Some bytes \<longrightarrow>
      get_firmware md5_hex st =
        [SetHeader ''Content-Type'' (Str (ascii ''application/octet-stream'')),
         SetHeader ''Content-Disposition'' (Str (ascii ''attachment; filename=firmware.bin'')),
         SetHeader ''Content-Length'' (size_value (length bytes)),
         SetHeader ''x-MD5'' (Str (md5_hex bytes)),
         Pipe bytes]) \<and>
   (v \<noteq> [] \<longrightarrow>
      get_firmware md5_hex
        (snd (post_update now \<lparr>firmware_part = Some payload, body_version = Str v\<rparr> st)) =
        [SetHeader ''Content-Type'' (Str (ascii ''application/octet-stream'')),
         SetHeader ''Content-Disposition'' (Str (ascii ''attachment; filename=firmware.bin'')),
         SetHeader ''Content-Length'' (size_value (length payload)),
         SetHeader ''x-MD5'' (Str (md5_hex payload)),
         Pipe payload])"
  by (simp add: eval_handler)

theorem firmware_download_witness:
  "get_firmware (\<lambda>bs. ascii ''d41d8cd98f00b204e9800998ecf8427e'')
     \<lparr>version_file = None, firmware_file = None\<rparr> =
     [Status 404, error_json ''Firmware not found''] \<and>
   get_firmware (\<lambda>bs. ascii ''d41d8cd98f00b204e9800998ecf8427e'')
     \<lparr>version_file = None, firmware_file = Some []\<rparr> =
     [SetHeader ''Content-Type'' (Str (ascii ''application/octet-stream'')),
      SetHeader ''Content-Disposition'' (Str (ascii ''attachment; filename=firmware.bin'')),
      SetHeader ''Content-Length'' (size_value 0),
      SetHeader ''x-MD5'' (Str (ascii ''d41d8cd98f00b204e9800998ecf8427e'')),
      Pipe []]"
  using firmware_download [of "\<lparr>version_file = None, firmware_file = None\<rparr>"
      "\<lambda>bs. ascii ''d41d8cd98f00b204e9800998ecf8427e''"]
    firmware_download [of "\<lparr>version_file = None, firmware_file = Some []\<rparr>"
      "\<lambda>bs. ascii ''d41d8cd98f00b204e9800998ecf8427e''" "[]"]
  by simp

text \<open>
  C8. \<open>compareVersions\<close> is antisymmetric and reflexive on strings: if \<open>a\<close> against
  \<open>b\<close> is 1 (GREATER) then \<open>b\<close> against \<open>a\<close> is -1 (LESS), and the other way round,
  and every string against itself is 0 (EQUAL).
\<close>

theorem compareVersions_antisymmetric:
  "(compareVersions (Str a) (Str b) = Inr 1 \<longrightarrow> compareVersions (Str b) (Str a) = Inr (- 1)) \<and>
   (compareVersions (Str a) (Str b) = Inr (- 1) \<longrightarrow> compareVersions (Str b) (Str a) = Inr 1) \<and>
   compareVersions (Str a) (Str a) = Inr 0"
  by (simp add: compareVersions_Str cmp_loop_same
      cmp_loop_swap [of "map Number (split 0x2E b)" "map Number (split 0x2E a)" 0])

theorem compareVersions_antisymmetric_witness:
  "compareVersions (Str (ascii ''1.10.0'')) (Str (ascii ''1.2.0'')) = Inr 1 \<and>
   compareVersions (Str (ascii ''1.2.0'')) (Str (ascii ''1.10.0'')) = Inr (- 1) \<and>
   compareVersions (Str (ascii ''1.10.0'')) (Str (ascii ''1.10.0'')) = Inr 0"
proof -
  have g: "compareVersions (Str (ascii ''1.10.0'')) (Str (ascii ''1.2.0'')) = Inr 1"
    by (simp add: eval_version)
  from compareVersions_antisymmetric [of "ascii ''1.10.0''" "ascii ''1.2.0''"] g
  show ?thesis by simp
qed

text \<open>
  C9. \<open>compareVersions\<close> is total on strings: the loop is a terminating function, no
  call throws, and the result is 1, 0 or -1. Every segment it compares is a number
  other than NaN: a missing segment (index past the end) and a segment that \<open>Number\<close>
  does not parse both count as 0.
\<close>

theorem compareVersions_total:
  "(compareVersions (Str a) (Str b) = Inr 1 \<or>
    compareVersions (Str a) (Str b) = Inr 0 \<or>
    compareVersions (Str a) (Str b) = Inr (- 1)) \<and>
   elem_or_zero (map Number (split 0x2E a)) i \<noteq> NaN \<and>
   (length (split 0x2E a) \<le> i \<longrightarrow> elem_or_zero (map Number (split 0x2E a)) i = Fin 0) \<and>
   (i < length (split 0x2E a) \<and> Number (split 0x2E a ! i) = NaN \<longrightarrow>
      elem_or_zero (map Number (split 0x2E a)) i = Fin 0)"
proof (intro conjI)
  show "compareVersions (Str a) (Str b) = Inr 1 \<or>
    compareVersions (Str a) (Str b) = Inr 0 \<or>
    compareVersions (Str a) (Str b) = Inr (- 1)"
    using cmp_loop_range [of "map Number (split 0x2E a)" "map Number (split 0x2E b)" 0]
    by (simp add: compareVersions_Str)
  show "elem_or_zero (map Number (split 0x2E a)) i \<noteq> NaN"
    by (rule elem_or_zero_not_NaN)
  show "length (split 0x2E a) \<le> i \<longrightarrow> elem_or_zero (map Number (split 0x2E a)) i = Fin 0"
    by (simp add: elem_or_zero_def)
  show "i < length (split 0x2E a) \<and> Number (split 0x2E a ! i) = NaN \<longrightarrow>
      elem_or_zero (map Number (split 0x2E a)) i = Fin 0"
    by (simp add: elem_or_zero_def)
qed

theorem compareVersions_total_witness:
  "compareVersions (Str (ascii ''1..3'')) (Str (ascii ''abc'')) = Inr 1 \<and>
   elem_or_zero (map Number (split 0x2E (ascii ''abc''))) 0 = Fin 0 \<and>
   elem_or_zero (map Number (split 0x2E (ascii ''abc''))) 1 = Fin 0"
proof -
  have "compareVersions (Str (ascii ''1..3'')) (Str (ascii ''abc'')) \<noteq> Inr 0"
    and "compareVersions (Str (ascii ''1..3'')) (Str (ascii ''abc'')) \<noteq> Inr (- 1)"
    using Number_letters by (simp_all add: eval_version)
  with compareVersions_total [of "ascii ''1..3''" "ascii ''abc''" 0]
  have c: "compareVersions (Str (ascii ''1..3'')) (Str (ascii ''abc'')) = Inr 1" by simp
  have s: "split 0x2E (ascii ''abc'') = [ascii ''abc'']"
    by (simp add: ascii_def)
  from compareVersions_total [of "ascii ''abc''" "ascii ''abc''" 0] Number_letters
  have e0: "elem_or_zero (map Number (split 0x2E (ascii ''abc''))) 0 = Fin 0"
    by (simp add: s)
  from compareVersions_total [of "ascii ''abc''" "ascii ''abc''" 1]
  have e1: "elem_or_zero (map Number (split 0x2E (ascii ''abc''))) 1 = Fin 0"
    by (simp add: s)
  from c e0 e1 show ?thesis by simp
qed

text \<open>
  C10 (as amended). On \<open>GET /check\<close> the device version is the \<open>version\<close> query
  parameter when that is truthy, and otherwise the \<open>x-esp8266-version\<close> header value
  as it is: \<open>undefined\<close> when the header is absent, the empty string when it is present
  and empty. When both are absent or empty and the version record is readable, the
  response reports \<open>updateAvailable = false\<close>.
\<close>

theorem check_device_version:
  "(truthy (query_version req) \<longrightarrow> deviceVersion req = query_version req) \<and>
   (\<not> truthy (query_version req) \<longrightarrow> deviceVersion req = header_version req) \<and>
   (\<not> truthy (query_version req) \<and> \<not> truthy (header_version req) \<and>
    version_file st = Some data \<and> version_of data = Inr s \<longrightarrow>
      get_check req st =
        [Json (Obj [(''currentVersion'', header_version req),
                    (''latestVersion'', s),
                    (''updateAvailable'', Bool False)])])"
  by (auto simp: get_check_def deviceVersion_def js_or_def compareVersions_def)

theorem check_device_version_witness:
  "deviceVersion \<lparr>query_version = Str (ascii ''1.0.0''), header_version = Str (ascii ''0.9'')\<rparr> =
     Str (ascii ''1.0.0'') \<and>
   deviceVersion \<lparr>query_version = Str [], header_version = Str (ascii ''0.9'')\<rparr> =
     Str (ascii ''0.9'') \<and>
   get_check \<lparr>query_version = Str [], header_version = Undefined\<rparr>
     \<lparr>version_file = Some (Obj [(''version'', Str (ascii ''1.0.1''))]), firmware_file = None\<rparr> =
     [Json (Obj [(''currentVersion'', Undefined),
                 (''latestVersion'', Str (ascii ''1.0.1'')),
                 (''updateAvailable'', Bool False)])]"
  using check_device_version
      [of "\<lparr>query_version = Str (ascii ''1.0.0''), header_version = Str (ascii ''0.9'')\<rparr>"]
    check_device_version
      [of "\<lparr>query_version = Str [], header_version = Str (ascii ''0.9'')\<rparr>"]
    check_device_version
      [of "\<lparr>query_version = Str [], header_version = Undefined\<rparr>"
        "\<lparr>version_file = Some (Obj [(''version'', Str (ascii ''1.0.1''))]), firmware_file = None\<rparr>"
        "Obj [(''version'', Str (ascii ''1.0.1''))]" "Str (ascii ''1.0.1'')"]
  by (simp add: ascii_def)

text \<open>
  C10 as stated fails: with no query parameter and an empty header value the device
  version is the empty string, not \<open>undefined\<close>.
\<close>

theorem deviceVersion_empty_header:
  "deviceVersion \<lparr>query_version = Undefined, header_version = Str []\<rparr> = Str [] \<and>
   deviceVersion \<lparr>query_version = Undefined, header_version = Str []\<rparr> \<noteq> Undefined"
  by (simp add: deviceVersion_def js_or_def)

end
